theory Spec2Isabelle
  imports Main
begin

section \<open>Strings and the host platform\<close>

text \<open>
  A JavaScript string is a sequence of UTF-16 code units; a code unit is modelled as a
  natural number. \<open>js\<close> turns an ASCII literal of the source into its code units.
\<close>

type_synonym jstring = "nat list"

definition js :: "string \<Rightarrow> jstring" where
  "js s = map of_char s"

text \<open>
  Two built-ins of the host are not code of the repository and are parameters of the model:
  \<^item> \<open>URL_hostname s\<close> is \<open>new URL(s).hostname\<close>, and \<open>None\<close> when the constructor
    throws;
  \<^item> \<open>unicodeLower s\<close> is \<open>s.toLowerCase()\<close> on a string that has a code unit outside
    ASCII (the Unicode case mapping).
  On a string of ASCII code units \<open>toLowerCase\<close> maps \<open>A\<close>..\<open>Z\<close> to \<open>a\<close>..\<open>z\<close> and
  leaves every other unit alone; that part is written out.
\<close>

record platform =
  URL_hostname :: "jstring \<Rightarrow> jstring option"
  unicodeLower :: "jstring \<Rightarrow> jstring"

definition isAscii :: "nat \<Rightarrow> bool" where
  "isAscii c = (c < 128)"

definition asciiLower :: "nat \<Rightarrow> nat" where
  "asciiLower c = (if 65 \<le> c \<and> c \<le> 90 then c + 32 else c)"

definition toLowerCase :: "platform \<Rightarrow> jstring \<Rightarrow> jstring" where
  "toLowerCase P s = (if list_all isAscii s then map asciiLower s else unicodeLower P s)"

text \<open>\<open>String.prototype.trim\<close>: white space and line terminators of ECMAScript.\<close>

definition isTrimmed :: "nat \<Rightarrow> bool" where
  "isTrimmed c =
     (c = 9 \<or> c = 10 \<or> c = 11 \<or> c = 12 \<or> c = 13 \<or> c = 32 \<or> c = 160 \<or> c = 5760
      \<or> (8192 \<le> c \<and> c \<le> 8202) \<or> c = 8232 \<or> c = 8233 \<or> c = 8239 \<or> c = 8287
      \<or> c = 12288 \<or> c = 65279)"

definition trim :: "jstring \<Rightarrow> jstring" where
  "trim s = rev (dropWhile isTrimmed (rev (dropWhile isTrimmed s)))"

definition startsWith :: "jstring \<Rightarrow> jstring \<Rightarrow> bool" where
  "startsWith s p = (take (length p) s = p)"

text \<open>\<open>s.includes(t)\<close>: \<open>t\<close> occurs in \<open>s\<close> as a contiguous substring.\<close>

fun includesStr :: "jstring \<Rightarrow> jstring \<Rightarrow> bool" where
  "includesStr [] t = (t = [])"
| "includesStr (c # s) t = (startsWith (c # s) t \<or> includesStr s t)"

text \<open>\<open>s.split(sep)\<close> for a separator of one code unit: always at least one part.\<close>

fun split :: "nat \<Rightarrow> jstring \<Rightarrow> jstring list" where
  "split sep [] = [[]]"
| "split sep (c # s) =
     (if c = sep then [] # split sep s
      else (case split sep s of [] \<Rightarrow> [[c]] | p # ps \<Rightarrow> (c # p) # ps))"

text \<open>\<open>s.replace(/a/g, 'b')\<close> for one code unit, and \<open>s.replace(/ab/g, 'r')\<close> for a
  pattern of two code units (matches are found left to right and do not overlap).\<close>

definition replaceUnit :: "nat \<Rightarrow> nat \<Rightarrow> jstring \<Rightarrow> jstring" where
  "replaceUnit a b s = map (\<lambda>c. if c = a then b else c) s"

fun replacePair :: "nat \<Rightarrow> nat \<Rightarrow> nat \<Rightarrow> jstring \<Rightarrow> jstring" where
  "replacePair a b r (x # y # s) =
     (if x = a \<and> y = b then r # replacePair a b r s else x # replacePair a b r (y # s))"
| "replacePair a b r s = s"

text \<open>The decimal text of a number inside a template literal.\<close>

fun decimal :: "nat \<Rightarrow> jstring" where
  "decimal n = (if n < 10 then [48 + n] else decimal (n div 10) @ [48 + n mod 10])"

definition numberToString :: "int \<Rightarrow> jstring" where
  "numberToString i = (if i < 0 then 45 # decimal (nat (- i)) else decimal (nat i))"

section \<open>The detector object: src/lib/typosquat.js\<close>

record detector =
  knownDomains :: "jstring list"
  homoglyphs :: "(jstring \<times> jstring list) list"
  suspiciousTLDs :: "jstring list"

definition TyposquatDetector :: detector where
  "TyposquatDetector = \<lparr>
     knownDomains = map js
       [''google'', ''facebook'', ''amazon'', ''apple'', ''microsoft'', ''netflix'', ''paypal'',
        ''instagram'', ''twitter'', ''linkedin'', ''youtube'', ''whatsapp'', ''telegram'',
        ''reddit'', ''github'', ''stackoverflow'', ''dropbox'', ''spotify'', ''adobe'',
        ''salesforce'', ''oracle'', ''ibm'', ''intel'', ''nvidia'', ''samsung'', ''sony'',
        ''walmart'', ''ebay'', ''alibaba'', ''zoom'', ''slack'', ''discord'', ''twitch'',
        ''pinterest'', ''snapchat'', ''tiktok'', ''uber'', ''airbnb'', ''booking'',
        ''expedia'', ''chase'', ''bankofamerica'', ''wellsfargo'', ''citibank'', ''hsbc'',
        ''barclays'', ''capitalone'', ''americanexpress'', ''visa'', ''mastercard'',
        ''coinbase'', ''binance'', ''kraken'', ''blockchain'', ''metamask'', ''opensea'',
        ''steam'', ''epicgames'', ''roblox'', ''minecraft'', ''playstation'', ''xbox'',
        ''nintendo'', ''att'', ''verizon'', ''tmobile'', ''comcast'', ''spectrum''],
     homoglyphs =
       [(js ''a'', [js ''@'', js ''4'', [0x430], [0x105], [0x3B1]]),
        (js ''b'', [js ''8'', [0x44C], [0x3B2]]),
        (js ''c'', [js ''('', [0x441], [0xE7], [0xA2]]),
        (js ''d'', [[0x111], [0xF0]]),
        (js ''e'', [js ''3'', [0x435], [0x451], [0x454], [0x119]]),
        (js ''g'', [js ''9'', [0x11F]]),
        (js ''h'', [[0x4BB]]),
        (js ''i'', [js ''1'', js ''l'', js ''!'', js ''|'', [0x456], [0x131]]),
        (js ''k'', [[0x3BA]]),
        (js ''l'', [js ''1'', js ''i'', js ''|'', [0x142]]),
        (js ''m'', [js ''rn'', [0x43C]]),
        (js ''n'', [[0x43F], [0x144]]),
        (js ''o'', [js ''0'', [0x43E], [0xF8], [0x3BF]]),
        (js ''p'', [[0x440], [0x3C1]]),
        (js ''s'', [js ''5'', js ''$'', [0x15B], [0x15F]]),
        (js ''t'', [js ''7'', js ''+'', [0x165]]),
        (js ''u'', [[0x3C5], [0x446], [0xF9]]),
        (js ''v'', [[0x3BD], [0x3C5]]),
        (js ''w'', [js ''vv'', [0x3C9]]),
        (js ''x'', [[0x445], [0xD7]]),
        (js ''y'', [[0x443], [0xFD]]),
        (js ''z'', [js ''2'', [0x17A], [0x17C]])],
     suspiciousTLDs = map js
       [''xyz'', ''tk'', ''ml'', ''ga'', ''cf'', ''gq'', ''top'', ''club'', ''online'', ''site'',
        ''website'', ''space'', ''fun'', ''icu'', ''buzz'', ''monster'', ''cam'', ''uno'']
   \<rparr>"

subsection \<open>levenshteinDistance\<close>

text \<open>
  The table \<open>dp\<close> is an array of \<open>m + 1\<close> rows of \<open>n + 1\<close> numbers, written cell by
  cell; every index the loops use is inside the table.
\<close>

definition get2 :: "int list list \<Rightarrow> nat \<Rightarrow> nat \<Rightarrow> int" where
  "get2 dp i j = dp ! i ! j"

definition set2 :: "int list list \<Rightarrow> nat \<Rightarrow> nat \<Rightarrow> int \<Rightarrow> int list list" where
  "set2 dp i j v = dp[i := (dp ! i)[j := v]]"

definition levCell :: "jstring \<Rightarrow> jstring \<Rightarrow> nat \<Rightarrow> nat \<Rightarrow> int list list \<Rightarrow> int list list" where
  "levCell str1 str2 i j dp =
     (if str1 ! (i - 1) = str2 ! (j - 1)
      then set2 dp i j (get2 dp (i - 1) (j - 1))
      else set2 dp i j
             (1 + min (min (get2 dp (i - 1) j) (get2 dp i (j - 1))) (get2 dp (i - 1) (j - 1))))"

definition levRow :: "jstring \<Rightarrow> jstring \<Rightarrow> nat \<Rightarrow> int list list \<Rightarrow> int list list" where
  "levRow str1 str2 i dp = fold (levCell str1 str2 i) [1..<length str2 + 1] dp"

definition levInit :: "nat \<Rightarrow> nat \<Rightarrow> int list list" where
  "levInit m n =
     (let dp0 = replicate (m + 1) (replicate (n + 1) 0);
          dp1 = fold (\<lambda>i dp. set2 dp i 0 (int i)) [0..<m + 1] dp0
      in fold (\<lambda>j dp. set2 dp 0 j (int j)) [0..<n + 1] dp1)"

definition levenshteinDistance :: "jstring \<Rightarrow> jstring \<Rightarrow> int" where
  "levenshteinDistance str1 str2 =
     (let m = length str1;
          n = length str2;
          dp = fold (levRow str1 str2) [1..<m + 1] (levInit m n)
      in get2 dp m n)"

subsection \<open>normalizeString\<close>

definition normalizeString :: "platform \<Rightarrow> jstring \<Rightarrow> jstring" where
  "normalizeString P str =
     (let normalized = toLowerCase P str;
          normalized = replaceUnit 48 111 normalized;
          normalized = replaceUnit 49 108 normalized;
          normalized = replaceUnit 51 101 normalized;
          normalized = replaceUnit 52 97 normalized;
          normalized = replaceUnit 53 115 normalized;
          normalized = replaceUnit 55 116 normalized;
          normalized = replaceUnit 56 98 normalized;
          normalized = replaceUnit 57 103 normalized;
          normalized = replaceUnit 64 97 normalized;
          normalized = replaceUnit 36 115 normalized;
          normalized = replacePair 114 110 109 normalized
      in replacePair 118 118 119 normalized)"

subsection \<open>extractDomain, getBaseDomain, getTLD\<close>

text \<open>The \<open>catch\<close> branch is the value \<open>None\<close>; only the \<open>URL\<close> constructor can throw.\<close>

definition extractDomain :: "platform \<Rightarrow> jstring \<Rightarrow> jstring option" where
  "extractDomain P url =
     (let cleanUrl = trim url;
          cleanUrl = (if \<not> startsWith cleanUrl (js ''http://'') \<and> \<not> startsWith cleanUrl (js ''https://'')
                      then js ''https://'' @ cleanUrl else cleanUrl)
      in case URL_hostname P cleanUrl of
           None \<Rightarrow> None
         | Some hostname \<Rightarrow> Some (toLowerCase P hostname))"

definition secondLevel :: "jstring list" where
  "secondLevel = map js [''co'', ''com'', ''org'', ''net'', ''gov'', ''edu'']"

definition getBaseDomain :: "jstring \<Rightarrow> jstring" where
  "getBaseDomain hostname =
     (let parts = split 46 hostname in
      if length parts \<ge> 2 then
        (let secondLast = parts ! (length parts - 2) in
         if secondLast \<in> set secondLevel \<and> length parts \<ge> 3
         then parts ! (length parts - 3)
         else secondLast)
      else parts ! 0)"

definition getTLD :: "jstring \<Rightarrow> jstring" where
  "getTLD hostname = (let parts = split 46 hostname in parts ! (length parts - 1))"

subsection \<open>checkSubdomainTrick\<close>

text \<open>The object the check returns: \<open>{isSuspicious: false}\<close>, or
  \<open>{isSuspicious: true, reason, matchedDomain}\<close>.\<close>

datatype subdomainCheck = NoTrick | Trick (reason: jstring) (matched: jstring)

definition trickReason :: "jstring \<Rightarrow> jstring" where
  "trickReason known = js ''Subdomain trick detected: '' @ [34] @ known @ [34] @ js '' used as subdomain''"

text \<open>The inner loop over \<open>i < parts.length - 2\<close>: does some label match \<open>known\<close>?\<close>

definition labelHit :: "jstring list \<Rightarrow> jstring \<Rightarrow> bool" where
  "labelHit parts known =
     list_ex (\<lambda>i. parts ! i = known \<or> includesStr (parts ! i) known) [0..<length parts - 2]"

text \<open>The outer loop over the known domains, left at the first hit.\<close>

fun trickLoop :: "jstring list \<Rightarrow> jstring list \<Rightarrow> subdomainCheck" where
  "trickLoop parts [] = NoTrick"
| "trickLoop parts (known # rest) =
     (if labelHit parts known then Trick (trickReason known) known else trickLoop parts rest)"

definition checkSubdomainTrick :: "detector \<Rightarrow> jstring \<Rightarrow> subdomainCheck" where
  "checkSubdomainTrick this hostname =
     (let parts = split 46 hostname in
      if length parts > 3 then trickLoop parts (knownDomains this) else NoTrick)"

subsection \<open>analyzeUrl\<close>

record analysis =
  url :: jstring
  isSuspicious :: bool
  riskScore :: int
  reasons :: "jstring list"
  matchedDomain :: "jstring option"

text \<open>A string is truthy when it is not empty; \<open>null\<close> is not.\<close>

definition truthy :: "jstring option \<Rightarrow> bool" where
  "truthy v = (case v of None \<Rightarrow> False | Some s \<Rightarrow> s \<noteq> [])"

definition similarReason :: "jstring \<Rightarrow> int \<Rightarrow> jstring" where
  "similarReason known distance =
     js ''Similar to '' @ [34] @ known @ [34] @ js '' ('' @ numberToString distance
       @ js '' character difference)''"

definition containsReason :: "jstring \<Rightarrow> jstring" where
  "containsReason known = js ''Contains brand name '' @ [34] @ known @ [34]"

definition homographReason :: "jstring \<Rightarrow> jstring" where
  "homographReason known = js ''Homograph attack: looks like '' @ [34] @ known @ [34]"

definition tldReason :: "jstring \<Rightarrow> jstring" where
  "tldReason tld = js ''Suspicious TLD: .'' @ tld"

text \<open>Lines 171 to 176: the verdict of the subdomain check is written into the result.\<close>

definition applySubdomainCheck :: "subdomainCheck \<Rightarrow> analysis \<Rightarrow> analysis" where
  "applySubdomainCheck c result =
     (case c of
        NoTrick \<Rightarrow> result
      | Trick r known \<Rightarrow>
          result\<lparr>isSuspicious := True, riskScore := riskScore result + 80,
                 reasons := reasons result @ [r], matchedDomain := Some known\<rparr>)"

text \<open>Lines 179 to 215: the loop over the known domains, with its \<open>continue\<close> and its
  three \<open>break\<close>s.\<close>

fun brandLoop :: "jstring \<Rightarrow> jstring \<Rightarrow> jstring list \<Rightarrow> analysis \<Rightarrow> analysis" where
  "brandLoop baseDomain normalizedDomain [] result = result"
| "brandLoop baseDomain normalizedDomain (known # rest) result =
     (if baseDomain = known then brandLoop baseDomain normalizedDomain rest result
      else
        (let distance = levenshteinDistance normalizedDomain known in
         if distance > 0 \<and> distance \<le> 2 then
           result\<lparr>isSuspicious := True, riskScore := riskScore result + 70,
                  reasons := reasons result @ [similarReason known distance],
                  matchedDomain := Some known\<rparr>
         else if includesStr baseDomain known \<and> baseDomain \<noteq> known then
           result\<lparr>isSuspicious := True, riskScore := riskScore result + 60,
                  reasons := reasons result @ [containsReason known],
                  matchedDomain := Some known\<rparr>
         else if normalizedDomain \<noteq> baseDomain
                 \<and> levenshteinDistance normalizedDomain known = 0 then
           result\<lparr>isSuspicious := True, riskScore := riskScore result + 90,
                  reasons := reasons result @ [homographReason known],
                  matchedDomain := Some known\<rparr>
         else brandLoop baseDomain normalizedDomain rest result))"

text \<open>Lines 218 to 221: the bonus for a suspicious top-level domain.\<close>

definition applyTldBonus :: "detector \<Rightarrow> jstring \<Rightarrow> analysis \<Rightarrow> analysis" where
  "applyTldBonus this tld result =
     (if tld \<in> set (suspiciousTLDs this) \<and> truthy (matchedDomain result)
      then result\<lparr>riskScore := riskScore result + 20,
                  reasons := reasons result @ [tldReason tld]\<rparr>
      else result)"

definition analyzeUrl :: "platform \<Rightarrow> detector \<Rightarrow> jstring \<Rightarrow> analysis" where
  "analyzeUrl P this u =
     (let result = \<lparr>url = u, isSuspicious = False, riskScore = 0, reasons = [],
                    matchedDomain = None\<rparr>
      in case extractDomain P u of
           None \<Rightarrow> result
         | Some hostname \<Rightarrow>
             if hostname = [] then result
             else
               (let baseDomain = getBaseDomain hostname;
                    normalizedDomain = normalizeString P baseDomain;
                    tld = getTLD hostname;
                    subdomainCheck = checkSubdomainTrick this hostname;
                    result = applySubdomainCheck subdomainCheck result;
                    result = brandLoop baseDomain normalizedDomain (knownDomains this) result;
                    result = applyTldBonus this tld result
                in result\<lparr>riskScore := min (riskScore result) 100\<rparr>))"

section \<open>Definitions used by the proofs\<close>

subsection \<open>The table of levenshteinDistance, cell by cell\<close>

text \<open>
  \<open>prefixDistance s1 s2 i j\<close> is the recurrence the loops fill the table with: the value
  of \<open>dp[i][j]\<close>. \<open>rowDistance\<close> computes the last row from the row before it, without a
  table; it is proved equal to \<open>levenshteinDistance\<close> and is what the proofs evaluate.
\<close>

fun prefixDistance :: "jstring \<Rightarrow> jstring \<Rightarrow> nat \<Rightarrow> nat \<Rightarrow> int" where
  "prefixDistance s1 s2 0 j = int j"
| "prefixDistance s1 s2 (Suc i) 0 = int (Suc i)"
| "prefixDistance s1 s2 (Suc i) (Suc j) =
     (if s1 ! i = s2 ! j then prefixDistance s1 s2 i j
      else 1 + min (min (prefixDistance s1 s2 i (Suc j)) (prefixDistance s1 s2 (Suc i) j))
                   (prefixDistance s1 s2 i j))"

fun rowFrom :: "nat \<Rightarrow> jstring \<Rightarrow> int list \<Rightarrow> int \<Rightarrow> int list" where
  "rowFrom x (y # ys) (d # u # rest) left =
     left # rowFrom x ys (u # rest) (if x = y then d else 1 + min (min u left) d)"
| "rowFrom x ys prev left = [left]"

fun lastRow :: "jstring \<Rightarrow> jstring \<Rightarrow> int list \<Rightarrow> int \<Rightarrow> int list" where
  "lastRow [] s2 row i = row"
| "lastRow (x # xs) s2 row i = lastRow xs s2 (rowFrom x s2 row (i + 1)) (i + 1)"

definition rowDistance :: "jstring \<Rightarrow> jstring \<Rightarrow> int" where
  "rowDistance s1 s2 = last (lastRow s1 s2 (map int [0..<Suc (length s2)]) 0)"

definition dims :: "int list list \<Rightarrow> nat \<Rightarrow> nat \<Rightarrow> bool" where
  "dims dp m n = (length dp = Suc m \<and> (\<forall>i\<le>m. length (dp ! i) = Suc n))"

subsection \<open>A platform to instantiate the theorems on\<close>

text \<open>
  \<open>samplePlatform\<close> stands for a host in the instances of the theorems: its
  URL constructor accepts \<open>http://host\<close> and \<open>https://host\<close>, with an optional path, where
  \<open>host\<close> is made of lower-case letters, digits, \<open>-\<close> and \<open>.\<close>, and throws on
  everything else; its case mapping leaves a string with non-ASCII units as it is. The
  theorems themselves hold for every platform.
\<close>

definition isHostUnit :: "nat \<Rightarrow> bool" where
  "isHostUnit c = ((97 \<le> c \<and> c \<le> 122) \<or> (48 \<le> c \<and> c \<le> 57) \<or> c = 45 \<or> c = 46)"

definition hostOf :: "jstring \<Rightarrow> jstring option" where
  "hostOf r = (let h = takeWhile (\<lambda>c. c \<noteq> 47) r in
               if h \<noteq> [] \<and> list_all isHostUnit h then Some h else None)"

definition sampleHostname :: "jstring \<Rightarrow> jstring option" where
  "sampleHostname s =
     (if startsWith s (js ''https://'') then hostOf (drop 8 s)
      else if startsWith s (js ''http://'') then hostOf (drop 7 s)
      else None)"

definition samplePlatform :: platform where
  "samplePlatform = \<lparr>URL_hostname = sampleHostname, unicodeLower = (\<lambda>s. s)\<rparr>"

subsection \<open>The result analyzeUrl starts from\<close>

definition emptyResult :: "jstring \<Rightarrow> analysis" where
  "emptyResult u =
     \<lparr>url = u, isSuspicious = False, riskScore = 0, reasons = [], matchedDomain = None\<rparr>"

subsection \<open>The normalizer as the specification words it\<close>

text \<open>
  The specification's Normalizer: lower-case the label, then apply an ordered list of
  substitutions, each over the whole label. \<open>replaceAll pat rep s\<close> replaces the
  occurrences of a non-empty pattern, found left to right and not overlapping.
\<close>

fun replaceAll :: "jstring \<Rightarrow> jstring \<Rightarrow> jstring \<Rightarrow> jstring" where
  "replaceAll pat rep [] = []"
| "replaceAll pat rep (c # s) =
     (if pat \<noteq> [] \<and> startsWith (c # s) pat
      then rep @ replaceAll pat rep (drop (length pat) (c # s))
      else c # replaceAll pat rep s)"

definition substitutions :: "(jstring \<times> jstring) list" where
  "substitutions =
     [(js ''0'', js ''o''), (js ''1'', js ''l''), (js ''3'', js ''e''), (js ''4'', js ''a''),
      (js ''5'', js ''s''), (js ''7'', js ''t''), (js ''8'', js ''b''), (js ''9'', js ''g''),
      (js ''@'', js ''a''), (js ''$'', js ''s''), (js ''rn'', js ''m''), (js ''vv'', js ''w'')]"

definition specNormalize :: "platform \<Rightarrow> jstring \<Rightarrow> jstring" where
  "specNormalize P s = foldl (\<lambda>acc (pat, rep). replaceAll pat rep acc) (toLowerCase P s) substitutions"

subsection \<open>Known domains far from each other\<close>

text \<open>
  Two checks the proofs evaluate over the list of known domains: \<open>far a b\<close> decides that
  the distance of \<open>a\<close> and \<open>b\<close> is more than 2 (by their lengths when these differ by more than
  2, by \<open>rowDistance\<close> otherwise), and \<open>outside a b\<close> that \<open>b\<close> does not occur in another
  string \<open>a\<close>.
\<close>

definition far :: "jstring \<Rightarrow> jstring \<Rightarrow> bool" where
  "far a b =
     (if length a + 2 < length b \<or> length b + 2 < length a then True
      else 2 < rowDistance a b)"

fun pairwiseFar :: "jstring list \<Rightarrow> bool" where
  "pairwiseFar [] = True"
| "pairwiseFar (k # ks) = (list_all (far k) ks \<and> pairwiseFar ks)"

definition outside :: "jstring \<Rightarrow> jstring \<Rightarrow> bool" where
  "outside a b = (if a = b then True else \<not> includesStr a b)"

section \<open>levenshteinDistance computes the recurrence of its table\<close>

lemma prefixDistance_zero_right: "prefixDistance s1 s2 i 0 = int i"
  by (cases i) simp_all

lemma prefixDistance_sym: "prefixDistance s1 s2 i j = prefixDistance s2 s1 j i"
proof (induction s1 s2 i j rule: prefixDistance.induct)
  case (1 s1 s2 j)
  show ?case by (simp add: prefixDistance_zero_right)
next
  case (2 s1 s2 i)
  show ?case by simp
next
  case (3 s1 s2 i j)
  then show ?case by (auto simp: min.commute)
qed

lemma prefixDistance_same: "prefixDistance s s i i = 0"
  by (induction i) simp_all

lemma prefixDistance_nonneg: "0 \<le> prefixDistance s1 s2 i j"
  by (induction s1 s2 i j rule: prefixDistance.induct) auto

lemma prefixDistance_ge_diff: "\<bar>int i - int j\<bar> \<le> prefixDistance s1 s2 i j"
  by (induction s1 s2 i j rule: prefixDistance.induct) auto

lemma dims_set2: "dims dp m n \<Longrightarrow> i \<le> m \<Longrightarrow> dims (set2 dp i j v) m n"
  by (auto simp: dims_def set2_def nth_list_update)

lemma get2_set2:
  "dims dp m n \<Longrightarrow> i \<le> m \<Longrightarrow> j \<le> n \<Longrightarrow> i' \<le> m \<Longrightarrow>
   get2 (set2 dp i j v) i' j' = (if i' = i \<and> j' = j then v else get2 dp i' j')"
  by (auto simp: dims_def set2_def get2_def nth_list_update)

lemma init_col:
  "dims dp0 m n \<Longrightarrow> k \<le> Suc m \<Longrightarrow>
   dims (fold (\<lambda>i dp. set2 dp i 0 (int i)) [0..<k] dp0) m n
   \<and> (\<forall>i\<le>m. \<forall>j\<le>n. get2 (fold (\<lambda>i dp. set2 dp i 0 (int i)) [0..<k] dp0) i j
         = (if i < k \<and> j = 0 then int i else get2 dp0 i j))"
proof (induction k)
  case 0
  then show ?case by simp
next
  case (Suc k)
  then show ?case by (auto simp: dims_set2 get2_set2)
qed

lemma init_row:
  "dims dp0 m n \<Longrightarrow> k \<le> Suc n \<Longrightarrow>
   dims (fold (\<lambda>j dp. set2 dp 0 j (int j)) [0..<k] dp0) m n
   \<and> (\<forall>i\<le>m. \<forall>j\<le>n. get2 (fold (\<lambda>j dp. set2 dp 0 j (int j)) [0..<k] dp0) i j
         = (if i = 0 \<and> j < k then int j else get2 dp0 i j))"
proof (induction k)
  case 0
  then show ?case by simp
next
  case (Suc k)
  then show ?case by (auto simp: dims_set2 get2_set2)
qed

lemma dims_replicate: "dims (replicate (Suc m) (replicate (Suc n) 0)) m n"
  by (simp add: dims_def del: replicate.simps)

lemma get2_replicate:
  "i \<le> m \<Longrightarrow> j \<le> n \<Longrightarrow> get2 (replicate (Suc m) (replicate (Suc n) 0)) i j = 0"
  by (simp add: get2_def del: replicate.simps)

lemma levInit_dims: "dims (levInit m n) m n"
proof -
  let ?dp1 = "fold (\<lambda>i dp. set2 dp i 0 (int i)) [0..<Suc m] (replicate (Suc m) (replicate (Suc n) 0))"
  have "dims ?dp1 m n"
    using init_col[OF dims_replicate, of "Suc m" m n] by blast
  then have "dims (fold (\<lambda>j dp. set2 dp 0 j (int j)) [0..<Suc n] ?dp1) m n"
    using init_row[of ?dp1 m n "Suc n"] by blast
  then show ?thesis by (simp add: levInit_def Let_def del: upt_Suc replicate.simps)
qed

lemma levInit_get:
  assumes "i \<le> m" "j \<le> n"
  shows "get2 (levInit m n) i j = (if i = 0 then int j else if j = 0 then int i else 0)"
proof -
  let ?dp0 = "replicate (Suc m) (replicate (Suc n) (0::int))"
  let ?dp1 = "fold (\<lambda>i dp. set2 dp i 0 (int i)) [0..<Suc m] ?dp0"
  let ?dp2 = "fold (\<lambda>j dp. set2 dp 0 j (int j)) [0..<Suc n] ?dp1"
  have c: "dims ?dp1 m n" "get2 ?dp1 i j = (if i < Suc m \<and> j = 0 then int i else get2 ?dp0 i j)"
    using init_col[OF dims_replicate, of "Suc m" m n] assms by blast+
  have r: "get2 ?dp2 i j = (if i = 0 \<and> j < Suc n then int j else get2 ?dp1 i j)"
    using init_row[OF c(1), of "Suc n"] assms by blast
  have "get2 ?dp2 i j = (if i = 0 then int j else if j = 0 then int i else 0)"
    unfolding r c(2) using assms by (simp add: get2_replicate del: upt_Suc replicate.simps)
  then show ?thesis by (simp add: levInit_def Let_def del: upt_Suc replicate.simps)
qed

lemma levInit_prefix:
  "i \<le> m \<Longrightarrow> j \<le> n \<Longrightarrow> i = 0 \<or> j = 0 \<Longrightarrow> get2 (levInit m n) i j = prefixDistance s1 s2 i j"
  by (auto simp: levInit_get prefixDistance_zero_right)

text \<open>One cell of the table.\<close>

lemma levCell_dims: "dims dp m n \<Longrightarrow> i \<le> m \<Longrightarrow> dims (levCell s1 s2 i j dp) m n"
  by (simp add: levCell_def dims_set2)

lemma levCell_get:
  assumes "dims dp m n" "i \<le> m" "j \<le> n" "i' \<le> m"
  shows "get2 (levCell s1 s2 i j dp) i' j' =
         (if i' = i \<and> j' = j
          then (if s1 ! (i - 1) = s2 ! (j - 1) then get2 dp (i - 1) (j - 1)
                else 1 + min (min (get2 dp (i - 1) j) (get2 dp i (j - 1))) (get2 dp (i - 1) (j - 1)))
          else get2 dp i' j')"
  using assms by (simp add: levCell_def get2_set2)

text \<open>One row: columns \<open>1..k\<close> of row \<open>i\<close> are filled, nothing else moves.\<close>

lemma levRow_prefix:
  assumes d: "dims dp m n" and i: "0 < i" "i \<le> m"
    and above: "\<forall>j\<le>n. get2 dp (i - 1) j = prefixDistance s1 s2 (i - 1) j"
    and left: "get2 dp i 0 = prefixDistance s1 s2 i 0"
  shows "k \<le> n \<Longrightarrow>
         dims (fold (levCell s1 s2 i) [1..<Suc k] dp) m n
         \<and> (\<forall>j\<le>k. get2 (fold (levCell s1 s2 i) [1..<Suc k] dp) i j = prefixDistance s1 s2 i j)
         \<and> (\<forall>i'\<le>m. \<forall>j. i' \<noteq> i \<longrightarrow> get2 (fold (levCell s1 s2 i) [1..<Suc k] dp) i' j = get2 dp i' j)"
proof (induction k)
  case 0
  then show ?case using d left by simp
next
  case (Suc k)
  let ?dp = "fold (levCell s1 s2 i) [1..<Suc k] dp"
  have ih: "dims ?dp m n" "\<forall>j\<le>k. get2 ?dp i j = prefixDistance s1 s2 i j"
    "\<forall>i'\<le>m. \<forall>j. i' \<noteq> i \<longrightarrow> get2 ?dp i' j = get2 dp i' j"
    using Suc by simp_all
  have step: "fold (levCell s1 s2 i) [1..<Suc (Suc k)] dp = levCell s1 s2 i (Suc k) ?dp"
    by simp
  obtain i0 where i0: "i = Suc i0" using i by (cases i) auto
  have up: "get2 ?dp (i - 1) j = prefixDistance s1 s2 (i - 1) j" if "j \<le> n" for j
    using ih(3) above i that by (simp add: i0)
  have cell: "get2 (levCell s1 s2 i (Suc k) ?dp) i (Suc k) = prefixDistance s1 s2 i (Suc k)"
    using levCell_get[OF ih(1) i(2), of "Suc k" i s1 s2 "Suc k"] Suc.prems i
      up[of "Suc k"] up[of k] ih(2)
    by (simp add: i0)
  have other: "get2 (levCell s1 s2 i (Suc k) ?dp) i' j' = get2 ?dp i' j'"
    if "i' \<le> m" "\<not> (i' = i \<and> j' = Suc k)" for i' j'
    using levCell_get[OF ih(1) i(2), of "Suc k" i' s1 s2 j'] Suc.prems that by auto
  show ?case
    unfolding step
  proof (intro conjI allI impI)
    show "dims (levCell s1 s2 i (Suc k) ?dp) m n" using ih(1) i by (simp add: levCell_dims)
  next
    fix j assume "j \<le> Suc k"
    then show "get2 (levCell s1 s2 i (Suc k) ?dp) i j = prefixDistance s1 s2 i j"
      using cell other[of i j] ih(2) i by (cases "j = Suc k") auto
  next
    fix i' j assume "i' \<le> m" "i' \<noteq> i"
    then show "get2 (levCell s1 s2 i (Suc k) ?dp) i' j = get2 dp i' j"
      using other[of i' j] ih(3) by simp
  qed
qed

text \<open>All rows: the table holds the recurrence.\<close>

lemma levRows_prefix:
  "k \<le> length s1 \<Longrightarrow>
   dims (fold (levRow s1 s2) [1..<Suc k] (levInit (length s1) (length s2))) (length s1) (length s2)
   \<and> (\<forall>i\<le>length s1. \<forall>j\<le>length s2. (i \<le> k \<or> j = 0) \<longrightarrow>
         get2 (fold (levRow s1 s2) [1..<Suc k] (levInit (length s1) (length s2))) i j
           = prefixDistance s1 s2 i j)"
proof (induction k)
  case 0
  then show ?case by (auto simp: levInit_dims levInit_prefix)
next
  case (Suc k)
  let ?m = "length s1" and ?n = "length s2"
  let ?dp = "fold (levRow s1 s2) [1..<Suc k] (levInit ?m ?n)"
  have ih: "dims ?dp ?m ?n"
    "\<forall>i\<le>?m. \<forall>j\<le>?n. (i \<le> k \<or> j = 0) \<longrightarrow> get2 ?dp i j = prefixDistance s1 s2 i j"
    using Suc by simp_all
  have step: "fold (levRow s1 s2) [1..<Suc (Suc k)] (levInit ?m ?n)
              = fold (levCell s1 s2 (Suc k)) [1..<Suc ?n] ?dp"
    by (simp add: levRow_def)
  have row: "dims (fold (levCell s1 s2 (Suc k)) [1..<Suc ?n] ?dp) ?m ?n
     \<and> (\<forall>j\<le>?n. get2 (fold (levCell s1 s2 (Suc k)) [1..<Suc ?n] ?dp) (Suc k) j = prefixDistance s1 s2 (Suc k) j)
     \<and> (\<forall>i'\<le>?m. \<forall>j. i' \<noteq> Suc k \<longrightarrow> get2 (fold (levCell s1 s2 (Suc k)) [1..<Suc ?n] ?dp) i' j = get2 ?dp i' j)"
  proof (rule levRow_prefix[OF ih(1)])
    show "0 < Suc k" "Suc k \<le> ?m" "?n \<le> ?n" using Suc.prems by simp_all
    show "\<forall>j\<le>?n. get2 ?dp (Suc k - 1) j = prefixDistance s1 s2 (Suc k - 1) j"
      using ih(2) Suc.prems by simp
    show "get2 ?dp (Suc k) 0 = prefixDistance s1 s2 (Suc k) 0"
      using ih(2) Suc.prems by blast
  qed
  let ?dp' = "fold (levCell s1 s2 (Suc k)) [1..<Suc ?n] ?dp"
  show ?case
    unfolding step
  proof (intro conjI allI impI)
    show "dims ?dp' ?m ?n" using row by blast
  next
    fix i j assume a: "i \<le> ?m" "j \<le> ?n" "i \<le> Suc k \<or> j = 0"
    show "get2 ?dp' i j = prefixDistance s1 s2 i j"
    proof (cases "i = Suc k")
      case True
      then show ?thesis using row a by blast
    next
      case False
      then have same: "get2 ?dp' i j = get2 ?dp i j" using row a by blast
      have "i \<le> k \<or> j = 0" using a False by auto
      then have "get2 ?dp i j = prefixDistance s1 s2 i j" using ih(2) a(1,2) by blast
      then show ?thesis using same by (simp only:)
    qed
  qed
qed

lemma levenshteinDistance_prefix:
  "levenshteinDistance s1 s2 = prefixDistance s1 s2 (length s1) (length s2)"
  using levRows_prefix[of "length s1" s1 s2]
  by (simp add: levenshteinDistance_def Let_def del: upt_Suc)

lemma rowFrom_prefix:
  "j \<le> length s2 \<Longrightarrow>
   rowFrom (s1 ! i) (drop j s2) (map (prefixDistance s1 s2 i) [j..<Suc (length s2)])
     (prefixDistance s1 s2 (Suc i) j)
   = map (prefixDistance s1 s2 (Suc i)) [j..<Suc (length s2)]"
proof (induction "length s2 - j" arbitrary: j)
  case 0
  then show ?case by simp
next
  case (Suc d)
  then have lt: "j < length s2" by simp
  have dr: "drop j s2 = s2 ! j # drop (Suc j) s2"
    using lt by (simp add: Cons_nth_drop_Suc)
  have up: "[j..<Suc (length s2)] = j # Suc j # [Suc (Suc j)..<Suc (length s2)]"
    using lt by (simp add: upt_conv_Cons del: upt_Suc)
  have up2: "[Suc j..<Suc (length s2)] = Suc j # [Suc (Suc j)..<Suc (length s2)]"
    using lt by (simp add: upt_conv_Cons del: upt_Suc)
  have ih: "rowFrom (s1 ! i) (drop (Suc j) s2)
              (map (prefixDistance s1 s2 i) [Suc j..<Suc (length s2)])
              (prefixDistance s1 s2 (Suc i) (Suc j))
            = map (prefixDistance s1 s2 (Suc i)) [Suc j..<Suc (length s2)]"
    using Suc.hyps(1)[of "Suc j"] Suc.hyps(2) lt by simp
  show ?case
    unfolding dr up
    using ih unfolding up2
    by (simp add: min.commute min.left_commute del: upt_Suc)
qed

lemma lastRow_prefix:
  "i \<le> length s1 \<Longrightarrow>
   lastRow (drop i s1) s2 (map (prefixDistance s1 s2 i) [0..<Suc (length s2)]) (int i)
   = map (prefixDistance s1 s2 (length s1)) [0..<Suc (length s2)]"
proof (induction "length s1 - i" arbitrary: i)
  case 0
  then show ?case by simp
next
  case (Suc d)
  then have lt: "i < length s1" by simp
  have dr: "drop i s1 = s1 ! i # drop (Suc i) s1"
    using lt by (simp add: Cons_nth_drop_Suc)
  have row: "rowFrom (s1 ! i) s2 (map (prefixDistance s1 s2 i) [0..<Suc (length s2)]) (int i + 1)
             = map (prefixDistance s1 s2 (Suc i)) [0..<Suc (length s2)]"
    using rowFrom_prefix[of 0 s2 s1 i] by (simp add: add.commute del: upt_Suc)
  have ih: "lastRow (drop (Suc i) s1) s2 (map (prefixDistance s1 s2 (Suc i)) [0..<Suc (length s2)]) (int (Suc i))
        = map (prefixDistance s1 s2 (length s1)) [0..<Suc (length s2)]"
    using Suc.hyps(1)[of "Suc i"] Suc.hyps(2) lt by simp
  have suc: "int (Suc i) = int i + 1" by simp
  show ?case
    unfolding dr lastRow.simps row using ih unfolding suc .
qed

lemma rowDistance_prefix: "rowDistance s1 s2 = prefixDistance s1 s2 (length s1) (length s2)"
proof -
  have z: "map (prefixDistance s1 s2 0) [0..<Suc (length s2)] = map int [0..<Suc (length s2)]"
    by (rule map_cong) simp_all
  have "lastRow s1 s2 (map int [0..<Suc (length s2)]) 0
        = map (prefixDistance s1 s2 (length s1)) [0..<Suc (length s2)]"
    using lastRow_prefix[of 0 s1 s2] unfolding z by simp
  then show ?thesis by (simp add: rowDistance_def)
qed

lemma levenshteinDistance_rowDistance: "levenshteinDistance s1 s2 = rowDistance s1 s2"
  by (simp add: levenshteinDistance_prefix rowDistance_prefix)

text \<open>
  C9. For all strings \<open>L\<close>, \<open>A\<close> and \<open>B\<close>: \<open>levenshteinDistance(L, L)\<close> is 0,
  \<open>levenshteinDistance(A, B)\<close> equals \<open>levenshteinDistance(B, A)\<close>, and the result is a
  non-negative integer.
\<close>

theorem levenshteinDistance_identity_symmetry_nonneg:
  "levenshteinDistance L L = 0
   \<and> levenshteinDistance A B = levenshteinDistance B A
   \<and> 0 \<le> levenshteinDistance A B"
proof (intro conjI)
  show "levenshteinDistance L L = 0"
    by (simp add: levenshteinDistance_prefix prefixDistance_same)
  show "levenshteinDistance A B = levenshteinDistance B A"
    unfolding levenshteinDistance_prefix by (rule prefixDistance_sym)
  show "0 \<le> levenshteinDistance A B"
    by (simp add: levenshteinDistance_prefix prefixDistance_nonneg)
qed

section \<open>Every hostname has a last label\<close>

lemma split_nonempty: "split sep s \<noteq> []"
  by (induction s) (auto split: list.splits)

lemma getTLD_last: "getTLD hostname = last (split 46 hostname)"
  using split_nonempty[of 46 hostname] by (simp add: getTLD_def Let_def last_conv_nth)

section \<open>The shape of every verdict\<close>

lemma trickLoop_cases:
  "trickLoop parts ks = NoTrick \<or> (\<exists>k\<in>set ks. trickLoop parts ks = Trick (trickReason k) k)"
  by (induction ks) auto

lemma checkSubdomainTrick_cases:
  "checkSubdomainTrick this h = NoTrick
   \<or> (\<exists>k\<in>set (knownDomains this). checkSubdomainTrick this h = Trick (trickReason k) k)"
  using trickLoop_cases[of "split 46 h" "knownDomains this"]
  by (auto simp: checkSubdomainTrick_def Let_def)

lemma brandLoop_cases:
  "brandLoop b n ks r = r
   \<or> (\<exists>k\<in>set ks. \<exists>d\<in>{60, 70, 90}. \<exists>t.
         brandLoop b n ks r =
           r\<lparr>isSuspicious := True, riskScore := riskScore r + d,
              reasons := reasons r @ [t], matchedDomain := Some k\<rparr>)"
proof (induction ks)
  case Nil
  then show ?case by simp
next
  case (Cons k ks)
  then show ?case by (simp add: Let_def) blast
qed

text \<open>The result before the bonus and the cap: what the two checks can leave.\<close>

lemma checks_cases:
  "brandLoop b n (knownDomains this) (applySubdomainCheck (checkSubdomainTrick this h) (emptyResult u))
     = emptyResult u
   \<or> (\<exists>k\<in>set (knownDomains this). \<exists>s\<in>{60, 70, 80, 90, 140, 150, 170}. \<exists>ts.
         ts \<noteq> []
         \<and> brandLoop b n (knownDomains this)
               (applySubdomainCheck (checkSubdomainTrick this h) (emptyResult u))
             = \<lparr>url = u, isSuspicious = True, riskScore = s, reasons = ts, matchedDomain = Some k\<rparr>)"
proof -
  let ?r1 = "applySubdomainCheck (checkSubdomainTrick this h) (emptyResult u)"
  have r1: "?r1 = emptyResult u
     \<or> (\<exists>k\<in>set (knownDomains this). ?r1 = \<lparr>url = u, isSuspicious = True, riskScore = 80, reasons = [trickReason k], matchedDomain = Some k\<rparr>)"
    using checkSubdomainTrick_cases[of this h]
    by (auto simp: applySubdomainCheck_def emptyResult_def)
  show ?thesis
    using brandLoop_cases[of b n "knownDomains this" ?r1] r1
    by (elim disjE bexE exE) (auto simp: emptyResult_def)
qed

lemma analyzeUrl_unfold:
  "analyzeUrl P this u =
     (case extractDomain P u of
        None \<Rightarrow> emptyResult u
      | Some hostname \<Rightarrow>
          if hostname = [] then emptyResult u
          else (let r = applyTldBonus this (getTLD hostname)
                          (brandLoop (getBaseDomain hostname) (normalizeString P (getBaseDomain hostname))
                             (knownDomains this)
                             (applySubdomainCheck (checkSubdomainTrick this hostname) (emptyResult u)))
                in r\<lparr>riskScore := min (riskScore r) 100\<rparr>))"
  by (simp add: analyzeUrl_def emptyResult_def Let_def split: option.split)

lemma analyzeUrl_cases:
  "analyzeUrl P this u = emptyResult u
   \<or> (\<exists>k\<in>set (knownDomains this). \<exists>s\<in>{60, 70, 80, 90, 100}. \<exists>ts.
         ts \<noteq> [] \<and> analyzeUrl P this u =
           \<lparr>url = u, isSuspicious = True, riskScore = s, reasons = ts, matchedDomain = Some k\<rparr>)"
proof (cases "extractDomain P u")
  case None
  then show ?thesis by (simp add: analyzeUrl_unfold)
next
  case (Some h)
  show ?thesis
  proof (cases "h = []")
    case True
    then show ?thesis using Some by (simp add: analyzeUrl_unfold)
  next
    case False
    let ?r = "brandLoop (getBaseDomain h) (normalizeString P (getBaseDomain h)) (knownDomains this)
                (applySubdomainCheck (checkSubdomainTrick this h) (emptyResult u))"
    have eq: "analyzeUrl P this u =
                (applyTldBonus this (getTLD h) ?r)\<lparr>riskScore := min (riskScore (applyTldBonus this (getTLD h) ?r)) 100\<rparr>"
      using Some False by (simp add: analyzeUrl_unfold Let_def)
    from checks_cases[of "getBaseDomain h" "normalizeString P (getBaseDomain h)" this h u]
    show ?thesis
    proof (elim disjE bexE exE conjE)
      assume "?r = emptyResult u"
      then show ?thesis unfolding eq by (simp add: applyTldBonus_def truthy_def emptyResult_def)
    next
      fix k s ts
      assume k: "k \<in> set (knownDomains this)" and s: "s \<in> {60, 70, 80, 90, 140, 150, 170::int}"
        and ts: "ts \<noteq> []"
        and r: "?r = \<lparr>url = u, isSuspicious = True, riskScore = s, reasons = ts, matchedDomain = Some k\<rparr>"
      show ?thesis
        unfolding eq r using k s ts
        by (auto simp: applyTldBonus_def)
    qed
  qed
qed

lemma applySubdomainCheck_score:
  "riskScore (applySubdomainCheck c r) - riskScore r \<in> {0, 80}"
  by (cases c) (simp_all add: applySubdomainCheck_def)

lemma brandLoop_score:
  "riskScore (brandLoop b n ks r) - riskScore r \<in> {0, 60, 70, 90}"
  using brandLoop_cases[of b n ks r] by auto

lemma applyTldBonus_score:
  "riskScore (applyTldBonus this t r) - riskScore r \<in> {0, 20}"
  by (simp add: applyTldBonus_def)

text \<open>
  C7. When \<open>extractDomain\<close> yields \<open>null\<close>, \<open>analyzeUrl\<close> returns the verdict it
  starts from: not suspicious, score 0, no reasons, no matched domain. The throw of the
  \<open>URL\<close> constructor is caught inside \<open>extractDomain\<close> (the value \<open>None\<close>), and nothing
  after it can throw, so \<open>analyzeUrl\<close> has no outcome other than a result.
\<close>

theorem analyzeUrl_no_hostname:
  "extractDomain P u = None \<Longrightarrow>
   analyzeUrl P this u =
     \<lparr>url = u, isSuspicious = False, riskScore = 0, reasons = [], matchedDomain = None\<rparr>"
  by (simp add: analyzeUrl_def)

theorem analyzeUrl_no_hostname_witness:
  "extractDomain samplePlatform (js ''not a url'') = None
   \<and> analyzeUrl samplePlatform TyposquatDetector (js ''not a url'') =
       \<lparr>url = js ''not a url'', isSuspicious = False, riskScore = 0, reasons = [],
        matchedDomain = None\<rparr>"
proof -
  have h: "extractDomain samplePlatform (js ''not a url'') = None"
    by (simp add: extractDomain_def trim_def isTrimmed_def startsWith_def js_def
        samplePlatform_def sampleHostname_def hostOf_def isHostUnit_def)
  show ?thesis
    using h analyzeUrl_no_hostname[OF h, of TyposquatDetector] by simp
qed

text \<open>
  C1. For every input string the risk score is an integer between 0 and 100; the
  subdomain check, the brand loop and the bonus never lower the score they are given.
\<close>

theorem analyzeUrl_riskScore_range:
  "0 \<le> riskScore (analyzeUrl P this u) \<and> riskScore (analyzeUrl P this u) \<le> 100
   \<and> riskScore r \<le> riskScore (applySubdomainCheck c r)
   \<and> riskScore r \<le> riskScore (brandLoop b n ks r)
   \<and> riskScore r \<le> riskScore (applyTldBonus this t r)"
proof (intro conjI)
  show "0 \<le> riskScore (analyzeUrl P this u)" "riskScore (analyzeUrl P this u) \<le> 100"
    using analyzeUrl_cases[of P this u] by (auto simp: emptyResult_def)
  show "riskScore r \<le> riskScore (applySubdomainCheck c r)"
    using applySubdomainCheck_score[of c r] by auto
  show "riskScore r \<le> riskScore (brandLoop b n ks r)"
    using brandLoop_score[of b n ks r] by auto
  show "riskScore r \<le> riskScore (applyTldBonus this t r)"
    using applyTldBonus_score[of this t r] by auto
qed

text \<open>
  C10. For every input string the risk score is one of 0, 60, 70, 80, 90, 100: the
  subdomain check adds 0 or 80, the brand loop adds 0, 60, 70 or 90, the bonus adds 0 or 20,
  and the sum is capped at 100.
\<close>

theorem analyzeUrl_riskScore_values:
  "riskScore (analyzeUrl P this u) \<in> {0, 60, 70, 80, 90, 100}
   \<and> riskScore (applySubdomainCheck c r) - riskScore r \<in> {0, 80}
   \<and> riskScore (brandLoop b n ks r) - riskScore r \<in> {0, 60, 70, 90}
   \<and> riskScore (applyTldBonus this t r) - riskScore r \<in> {0, 20}"
proof (intro conjI)
  show "riskScore (analyzeUrl P this u) \<in> {0, 60, 70, 80, 90, 100}"
    using analyzeUrl_cases[of P this u] by (auto simp: emptyResult_def)
qed (rule applySubdomainCheck_score brandLoop_score applyTldBonus_score)+

section \<open>The analysis of three addresses\<close>

lemmas eval_strings =
  js_def trim_def isTrimmed_def startsWith_def isAscii_def asciiLower_def toLowerCase_def
  replaceUnit_def

lemmas eval_sample =
  samplePlatform_def sampleHostname_def hostOf_def isHostUnit_def

lemma analyzeUrl_steps:
  "extractDomain P u = Some h \<Longrightarrow> h \<noteq> [] \<Longrightarrow>
   brandLoop (getBaseDomain h) (normalizeString P (getBaseDomain h)) (knownDomains this)
     (applySubdomainCheck (checkSubdomainTrick this h) (emptyResult u)) = r \<Longrightarrow>
   analyzeUrl P this u =
     (applyTldBonus this (getTLD h) r)
       \<lparr>riskScore := min (riskScore (applyTldBonus this (getTLD h) r)) 100\<rparr>"
  by (simp add: analyzeUrl_unfold Let_def)

lemma first_brands:
  "knownDomains TyposquatDetector =
     [js ''google'', js ''facebook'', js ''amazon'', js ''apple'', js ''microsoft'',
      js ''netflix'', js ''paypal''] @ drop 7 (knownDomains TyposquatDetector)"
  by (simp add: TyposquatDetector_def)

subsection \<open>https://paypal-security-update.xyz\<close>

lemma update_extract:
  "URL_hostname P (js ''https://paypal-security-update.xyz'') = Some (js ''paypal-security-update.xyz'')
   \<Longrightarrow> extractDomain P (js ''https://paypal-security-update.xyz'') = Some (js ''paypal-security-update.xyz'')"
  by (simp add: eval_strings extractDomain_def)

lemma update_split:
  "split 46 (js ''paypal-security-update.xyz'') = [js ''paypal-security-update'', js ''xyz'']"
  by (simp add: js_def)

lemma update_base: "getBaseDomain (js ''paypal-security-update.xyz'') = js ''paypal-security-update''"
  by (simp add: getBaseDomain_def update_split)

lemma update_tld: "getTLD (js ''paypal-security-update.xyz'') = js ''xyz''"
  by (simp add: getTLD_def update_split)

lemma update_normalized:
  "normalizeString P (js ''paypal-security-update'') = js ''paypal-security-update''"
  by (simp add: normalizeString_def eval_strings)

lemma update_trick: "checkSubdomainTrick this (js ''paypal-security-update.xyz'') = NoTrick"
  by (simp add: checkSubdomainTrick_def update_split)

lemma update_brands:
  "brandLoop (js ''paypal-security-update'') (js ''paypal-security-update'')
     (knownDomains TyposquatDetector) (emptyResult u) =
     \<lparr>url = u, isSuspicious = True, riskScore = 60, reasons = [containsReason (js ''paypal'')],
      matchedDomain = Some (js ''paypal'')\<rparr>"
  by (subst first_brands)
    (simp add: js_def levenshteinDistance_rowDistance rowDistance_def Let_def startsWith_def
      emptyResult_def split del: if_split)

lemma xyz_suspicious: "js ''xyz'' \<in> set (suspiciousTLDs TyposquatDetector)"
  by (simp add: TyposquatDetector_def)

lemma update_analysis:
  assumes "URL_hostname P (js ''https://paypal-security-update.xyz'') = Some (js ''paypal-security-update.xyz'')"
  shows "analyzeUrl P TyposquatDetector (js ''https://paypal-security-update.xyz'') =
     \<lparr>url = js ''https://paypal-security-update.xyz'', isSuspicious = True, riskScore = 80,
      reasons = [containsReason (js ''paypal''), tldReason (js ''xyz'')],
      matchedDomain = Some (js ''paypal'')\<rparr>"
proof -
  have nonempty: "js ''paypal-security-update.xyz'' \<noteq> []" by (simp add: js_def)
  have b: "brandLoop (getBaseDomain (js ''paypal-security-update.xyz''))
             (normalizeString P (getBaseDomain (js ''paypal-security-update.xyz'')))
             (knownDomains TyposquatDetector)
             (applySubdomainCheck (checkSubdomainTrick TyposquatDetector (js ''paypal-security-update.xyz''))
                (emptyResult (js ''https://paypal-security-update.xyz'')))
           = \<lparr>url = js ''https://paypal-security-update.xyz'', isSuspicious = True, riskScore = 60,
                reasons = [containsReason (js ''paypal'')], matchedDomain = Some (js ''paypal'')\<rparr>"
    by (simp only: update_base update_normalized update_trick update_brands
        applySubdomainCheck_def subdomainCheck.case)
  have p: "js ''paypal'' \<noteq> []" by (simp add: js_def)
  show ?thesis
    unfolding analyzeUrl_steps[OF update_extract[OF assms] nonempty b] update_tld
    using xyz_suspicious p by (simp add: applyTldBonus_def truthy_def)
qed

lemma update_sample:
  "URL_hostname samplePlatform (js ''https://paypal-security-update.xyz'') = Some (js ''paypal-security-update.xyz'')"
  by (simp add: eval_sample eval_strings)

subsection \<open>https://g00gle.com\<close>

lemma g00gle_extract:
  "URL_hostname P (js ''https://g00gle.com'') = Some (js ''g00gle.com'')
   \<Longrightarrow> extractDomain P (js ''https://g00gle.com'') = Some (js ''g00gle.com'')"
  by (simp add: eval_strings extractDomain_def)

lemma g00gle_split: "split 46 (js ''g00gle.com'') = [js ''g00gle'', js ''com'']"
  by (simp add: js_def)

lemma g00gle_base: "getBaseDomain (js ''g00gle.com'') = js ''g00gle''"
  by (simp add: getBaseDomain_def g00gle_split)

lemma g00gle_tld: "getTLD (js ''g00gle.com'') = js ''com''"
  by (simp add: getTLD_def g00gle_split)

lemma g00gle_normalized: "normalizeString P (js ''g00gle'') = js ''google''"
  by (simp add: normalizeString_def eval_strings)

lemma g00gle_trick: "checkSubdomainTrick this (js ''g00gle.com'') = NoTrick"
  by (simp add: checkSubdomainTrick_def g00gle_split)

lemma g00gle_brands:
  "brandLoop (js ''g00gle'') (js ''google'') (knownDomains TyposquatDetector) (emptyResult u) =
     \<lparr>url = u, isSuspicious = True, riskScore = 90, reasons = [homographReason (js ''google'')],
      matchedDomain = Some (js ''google'')\<rparr>"
  by (subst first_brands)
    (simp add: js_def levenshteinDistance_rowDistance rowDistance_def Let_def startsWith_def
      emptyResult_def split del: if_split)

lemma com_not_suspicious: "js ''com'' \<notin> set (suspiciousTLDs TyposquatDetector)"
  by (simp add: TyposquatDetector_def js_def)

lemma g00gle_analysis:
  assumes "URL_hostname P (js ''https://g00gle.com'') = Some (js ''g00gle.com'')"
  shows "analyzeUrl P TyposquatDetector (js ''https://g00gle.com'') =
     \<lparr>url = js ''https://g00gle.com'', isSuspicious = True, riskScore = 90,
      reasons = [homographReason (js ''google'')], matchedDomain = Some (js ''google'')\<rparr>"
proof -
  have nonempty: "js ''g00gle.com'' \<noteq> []" by (simp add: js_def)
  have b: "brandLoop (getBaseDomain (js ''g00gle.com''))
             (normalizeString P (getBaseDomain (js ''g00gle.com'')))
             (knownDomains TyposquatDetector)
             (applySubdomainCheck (checkSubdomainTrick TyposquatDetector (js ''g00gle.com''))
                (emptyResult (js ''https://g00gle.com'')))
           = \<lparr>url = js ''https://g00gle.com'', isSuspicious = True, riskScore = 90,
                reasons = [homographReason (js ''google'')], matchedDomain = Some (js ''google'')\<rparr>"
    by (simp only: g00gle_base g00gle_normalized g00gle_trick g00gle_brands
        applySubdomainCheck_def subdomainCheck.case)
  show ?thesis
    unfolding analyzeUrl_steps[OF g00gle_extract[OF assms] nonempty b] g00gle_tld
    using com_not_suspicious by (simp add: applyTldBonus_def)
qed

lemma g00gle_sample:
  "URL_hostname samplePlatform (js ''https://g00gle.com'') = Some (js ''g00gle.com'')"
  by (simp add: eval_sample eval_strings)

subsection \<open>https://paypal.com.evil.com\<close>

lemma evil_extract:
  "URL_hostname P (js ''https://paypal.com.evil.com'') = Some (js ''paypal.com.evil.com'')
   \<Longrightarrow> extractDomain P (js ''https://paypal.com.evil.com'') = Some (js ''paypal.com.evil.com'')"
  by (simp add: eval_strings extractDomain_def)

lemma evil_split:
  "split 46 (js ''paypal.com.evil.com'') = [js ''paypal'', js ''com'', js ''evil'', js ''com'']"
  by (simp add: js_def)

lemma evil_base: "getBaseDomain (js ''paypal.com.evil.com'') = js ''evil''"
  by (simp add: getBaseDomain_def evil_split secondLevel_def js_def)

lemma evil_tld: "getTLD (js ''paypal.com.evil.com'') = js ''com''"
  by (simp add: getTLD_def evil_split)

lemma evil_normalized: "normalizeString P (js ''evil'') = js ''evil''"
  by (simp add: normalizeString_def eval_strings)

lemma evil_trick:
  "checkSubdomainTrick TyposquatDetector (js ''paypal.com.evil.com'')
     = Trick (trickReason (js ''paypal'')) (js ''paypal'')"
  unfolding checkSubdomainTrick_def evil_split Let_def
  by (subst first_brands)
    (simp add: labelHit_def js_def startsWith_def upt_conv_Cons split del: if_split)

lemma evil_brands:
  "brandLoop (js ''evil'') (js ''evil'') (knownDomains TyposquatDetector) r = r"
  by (simp add: TyposquatDetector_def js_def levenshteinDistance_rowDistance rowDistance_def
      Let_def startsWith_def split del: if_split)

lemma evil_analysis:
  assumes "URL_hostname P (js ''https://paypal.com.evil.com'') = Some (js ''paypal.com.evil.com'')"
  shows "analyzeUrl P TyposquatDetector (js ''https://paypal.com.evil.com'') =
     \<lparr>url = js ''https://paypal.com.evil.com'', isSuspicious = True, riskScore = 80,
      reasons = [trickReason (js ''paypal'')], matchedDomain = Some (js ''paypal'')\<rparr>"
proof -
  have nonempty: "js ''paypal.com.evil.com'' \<noteq> []" by (simp add: js_def)
  have b: "brandLoop (getBaseDomain (js ''paypal.com.evil.com''))
             (normalizeString P (getBaseDomain (js ''paypal.com.evil.com'')))
             (knownDomains TyposquatDetector)
             (applySubdomainCheck (checkSubdomainTrick TyposquatDetector (js ''paypal.com.evil.com''))
                (emptyResult (js ''https://paypal.com.evil.com'')))
           = \<lparr>url = js ''https://paypal.com.evil.com'', isSuspicious = True, riskScore = 80,
                reasons = [trickReason (js ''paypal'')], matchedDomain = Some (js ''paypal'')\<rparr>"
    unfolding evil_base evil_normalized evil_trick evil_brands
    by (simp add: applySubdomainCheck_def emptyResult_def)
  show ?thesis
    unfolding analyzeUrl_steps[OF evil_extract[OF assms] nonempty b] evil_tld
    using com_not_suspicious by (simp add: applyTldBonus_def)
qed

lemma evil_sample:
  "URL_hostname samplePlatform (js ''https://paypal.com.evil.com'') = Some (js ''paypal.com.evil.com'')"
  by (simp add: eval_sample eval_strings)

section \<open>The subdomain check\<close>

lemma ex_take_nth:
  assumes "n \<le> length xs"
  shows "(\<exists>p\<in>set (take n xs). Q p) \<longleftrightarrow> (\<exists>i<n. Q (xs ! i))"
  unfolding nth_image[OF assms, symmetric] by auto

lemma labelHit_butlast:
  "labelHit parts known
   \<longleftrightarrow> (\<exists>p\<in>set (butlast (butlast parts)). p = known \<or> includesStr p known)"
proof -
  have bb: "butlast (butlast parts) = take (length parts - 2) parts"
    by (simp add: butlast_conv_take numeral_2_eq_2)
  have "labelHit parts known
        \<longleftrightarrow> (\<exists>i<length parts - 2. parts ! i = known \<or> includesStr (parts ! i) known)"
    by (auto simp: labelHit_def list_ex_iff)
  also have "\<dots> \<longleftrightarrow> (\<exists>p\<in>set (take (length parts - 2) parts). p = known \<or> includesStr p known)"
    by (simp add: ex_take_nth)
  finally show ?thesis by (simp only: bb)
qed

lemma trickLoop_find:
  "trickLoop parts ks =
     (case find (labelHit parts) ks of
        None \<Rightarrow> NoTrick
      | Some known \<Rightarrow> Trick (trickReason known) known)"
  by (induction ks) simp_all

lemma trickLoop_fires:
  "trickLoop parts ks \<noteq> NoTrick \<longleftrightarrow> (\<exists>known\<in>set ks. labelHit parts known)"
  by (induction ks) simp_all

text \<open>
  C5. The subdomain check fires exactly when the hostname has more than three labels and a
  label other than the last two equals or contains a known domain; the first known domain (in
  the order of the list) with such a label is the one reported; \<open>analyzeUrl\<close> then marks the
  result suspicious, adds 80 and records that domain. For \<open>https://paypal.com.evil.com\<close> the
  verdict is suspicious by the subdomain check, matched domain \<open>paypal\<close>, score 80.
\<close>

theorem checkSubdomainTrick_first_known:
  "(checkSubdomainTrick this h \<noteq> NoTrick \<longleftrightarrow>
      3 < length (split 46 h)
      \<and> (\<exists>known\<in>set (knownDomains this). \<exists>p\<in>set (butlast (butlast (split 46 h))).
            p = known \<or> includesStr p known))
   \<and> checkSubdomainTrick this h =
       (if 3 < length (split 46 h)
        then (case find (\<lambda>known. \<exists>p\<in>set (butlast (butlast (split 46 h))).
                                   p = known \<or> includesStr p known) (knownDomains this) of
                None \<Rightarrow> NoTrick
              | Some known \<Rightarrow> Trick (trickReason known) known)
        else NoTrick)
   \<and> (checkSubdomainTrick this h = Trick t known \<longrightarrow>
        applySubdomainCheck (checkSubdomainTrick this h) r =
          r\<lparr>isSuspicious := True, riskScore := riskScore r + 80, reasons := reasons r @ [t],
             matchedDomain := Some known\<rparr>)
   \<and> (checkSubdomainTrick this h = NoTrick \<longrightarrow>
        applySubdomainCheck (checkSubdomainTrick this h) r = r)
   \<and> (URL_hostname P (js ''https://paypal.com.evil.com'') = Some (js ''paypal.com.evil.com'') \<longrightarrow>
        analyzeUrl P TyposquatDetector (js ''https://paypal.com.evil.com'') =
          \<lparr>url = js ''https://paypal.com.evil.com'', isSuspicious = True, riskScore = 80,
           reasons = [trickReason (js ''paypal'')], matchedDomain = Some (js ''paypal'')\<rparr>)"
proof (intro conjI impI)
  have hit: "labelHit (split 46 h) = (\<lambda>known. \<exists>p\<in>set (butlast (butlast (split 46 h))).
                                        p = known \<or> includesStr p known)"
    by (rule ext) (rule labelHit_butlast)
  show "checkSubdomainTrick this h \<noteq> NoTrick \<longleftrightarrow>
      3 < length (split 46 h)
      \<and> (\<exists>known\<in>set (knownDomains this). \<exists>p\<in>set (butlast (butlast (split 46 h))).
            p = known \<or> includesStr p known)"
    by (simp add: checkSubdomainTrick_def Let_def trickLoop_fires labelHit_butlast)
  show "checkSubdomainTrick this h =
       (if 3 < length (split 46 h)
        then (case find (\<lambda>known. \<exists>p\<in>set (butlast (butlast (split 46 h))).
                                   p = known \<or> includesStr p known) (knownDomains this) of
                None \<Rightarrow> NoTrick
              | Some known \<Rightarrow> Trick (trickReason known) known)
        else NoTrick)"
    unfolding hit[symmetric] by (simp add: checkSubdomainTrick_def Let_def trickLoop_find)
next
  assume "checkSubdomainTrick this h = Trick t known"
  then show "applySubdomainCheck (checkSubdomainTrick this h) r =
          r\<lparr>isSuspicious := True, riskScore := riskScore r + 80, reasons := reasons r @ [t],
             matchedDomain := Some known\<rparr>"
    by (simp add: applySubdomainCheck_def)
next
  assume "checkSubdomainTrick this h = NoTrick"
  then show "applySubdomainCheck (checkSubdomainTrick this h) r = r"
    by (simp add: applySubdomainCheck_def)
next
  assume "URL_hostname P (js ''https://paypal.com.evil.com'') = Some (js ''paypal.com.evil.com'')"
  then show "analyzeUrl P TyposquatDetector (js ''https://paypal.com.evil.com'') =
          \<lparr>url = js ''https://paypal.com.evil.com'', isSuspicious = True, riskScore = 80,
           reasons = [trickReason (js ''paypal'')], matchedDomain = Some (js ''paypal'')\<rparr>"
    by (rule evil_analysis)
qed

theorem checkSubdomainTrick_first_known_witness:
  "checkSubdomainTrick TyposquatDetector (js ''paypal.com.evil.com'')
     = Trick (trickReason (js ''paypal'')) (js ''paypal'')
   \<and> applySubdomainCheck (checkSubdomainTrick TyposquatDetector (js ''paypal.com.evil.com''))
         (emptyResult [])
       = (emptyResult [])\<lparr>isSuspicious := True, riskScore := riskScore (emptyResult []) + 80,
            reasons := reasons (emptyResult []) @ [trickReason (js ''paypal'')],
            matchedDomain := Some (js ''paypal'')\<rparr>
   \<and> checkSubdomainTrick TyposquatDetector (js ''g00gle.com'') = NoTrick
   \<and> applySubdomainCheck (checkSubdomainTrick TyposquatDetector (js ''g00gle.com''))
         (emptyResult []) = emptyResult []
   \<and> URL_hostname samplePlatform (js ''https://paypal.com.evil.com'')
       = Some (js ''paypal.com.evil.com'')
   \<and> analyzeUrl samplePlatform TyposquatDetector (js ''https://paypal.com.evil.com'') =
          \<lparr>url = js ''https://paypal.com.evil.com'', isSuspicious = True, riskScore = 80,
           reasons = [trickReason (js ''paypal'')], matchedDomain = Some (js ''paypal'')\<rparr>"
proof -
  note fires =
    checkSubdomainTrick_first_known[of TyposquatDetector "js ''paypal.com.evil.com''"
      "trickReason (js ''paypal'')" "js ''paypal''" "emptyResult []" samplePlatform]
  note quiet =
    checkSubdomainTrick_first_known[of TyposquatDetector "js ''g00gle.com''"
      "trickReason (js ''paypal'')" "js ''paypal''" "emptyResult []" samplePlatform]
  have 1: "applySubdomainCheck (checkSubdomainTrick TyposquatDetector (js ''paypal.com.evil.com''))
         (emptyResult [])
       = (emptyResult [])\<lparr>isSuspicious := True, riskScore := riskScore (emptyResult []) + 80,
            reasons := reasons (emptyResult []) @ [trickReason (js ''paypal'')],
            matchedDomain := Some (js ''paypal'')\<rparr>"
    using fires evil_trick by blast
  have 2: "applySubdomainCheck (checkSubdomainTrick TyposquatDetector (js ''g00gle.com''))
         (emptyResult []) = emptyResult []"
    using quiet g00gle_trick[of TyposquatDetector] by blast
  have 3: "analyzeUrl samplePlatform TyposquatDetector (js ''https://paypal.com.evil.com'') =
          \<lparr>url = js ''https://paypal.com.evil.com'', isSuspicious = True, riskScore = 80,
           reasons = [trickReason (js ''paypal'')], matchedDomain = Some (js ''paypal'')\<rparr>"
    using fires evil_sample by blast
  show ?thesis
    using 1 2 3 evil_trick g00gle_trick[of TyposquatDetector] evil_sample by blast
qed

lemma noturl_extract: "extractDomain samplePlatform (js ''not a url'') = None"
  by (simp add: extractDomain_def eval_strings eval_sample)

text \<open>
  C2. In every result of \<open>analyzeUrl\<close>: there are reasons exactly when the result is
  suspicious; a matched domain is present only in a suspicious result and is then one of the
  known domains; a result that is not suspicious has no reasons, no matched domain and score
  0. The bonus for a suspicious top-level domain changes neither the flag nor the matched
  domain, and changes nothing at all when no domain is matched.
\<close>

theorem analyzeUrl_verdict_consistent:
  "(reasons (analyzeUrl P this u) \<noteq> [] \<longleftrightarrow> isSuspicious (analyzeUrl P this u))
   \<and> (matchedDomain (analyzeUrl P this u) \<noteq> None \<longrightarrow>
        isSuspicious (analyzeUrl P this u)
        \<and> (\<exists>k\<in>set (knownDomains this). matchedDomain (analyzeUrl P this u) = Some k))
   \<and> (\<not> isSuspicious (analyzeUrl P this u) \<longrightarrow>
        reasons (analyzeUrl P this u) = [] \<and> matchedDomain (analyzeUrl P this u) = None
        \<and> riskScore (analyzeUrl P this u) = 0)
   \<and> isSuspicious (applyTldBonus this t r) = isSuspicious r
   \<and> matchedDomain (applyTldBonus this t r) = matchedDomain r
   \<and> (matchedDomain r = None \<longrightarrow> applyTldBonus this t r = r)"
proof -
  have tld: "isSuspicious (applyTldBonus this t r) = isSuspicious r
     \<and> matchedDomain (applyTldBonus this t r) = matchedDomain r
     \<and> (matchedDomain r = None \<longrightarrow> applyTldBonus this t r = r)"
    by (simp add: applyTldBonus_def truthy_def)
  from analyzeUrl_cases[of P this u] show ?thesis
  proof (elim disjE bexE exE conjE)
    assume "analyzeUrl P this u = emptyResult u"
    then show ?thesis using tld by (simp add: emptyResult_def)
  next
    fix k s ts
    assume "k \<in> set (knownDomains this)" "ts \<noteq> []"
      "analyzeUrl P this u =
         \<lparr>url = u, isSuspicious = True, riskScore = s, reasons = ts, matchedDomain = Some k\<rparr>"
    then show ?thesis using tld by simp
  qed
qed

theorem analyzeUrl_verdict_consistent_witness:
  "matchedDomain (analyzeUrl samplePlatform TyposquatDetector (js ''https://paypal-security-update.xyz'')) \<noteq> None
   \<and> isSuspicious (analyzeUrl samplePlatform TyposquatDetector (js ''https://paypal-security-update.xyz''))
   \<and> reasons (analyzeUrl samplePlatform TyposquatDetector (js ''https://paypal-security-update.xyz'')) \<noteq> []
   \<and> \<not> isSuspicious (analyzeUrl samplePlatform TyposquatDetector (js ''not a url''))
   \<and> reasons (analyzeUrl samplePlatform TyposquatDetector (js ''not a url'')) = []
   \<and> matchedDomain (analyzeUrl samplePlatform TyposquatDetector (js ''not a url'')) = None
   \<and> riskScore (analyzeUrl samplePlatform TyposquatDetector (js ''not a url'')) = 0
   \<and> matchedDomain (emptyResult []) = None
   \<and> applyTldBonus TyposquatDetector (js ''xyz'') (emptyResult []) = emptyResult []"
proof -
  note suspicious =
    analyzeUrl_verdict_consistent[of samplePlatform TyposquatDetector
      "js ''https://paypal-security-update.xyz''" "js ''xyz''" "emptyResult []"]
  note clean =
    analyzeUrl_verdict_consistent[of samplePlatform TyposquatDetector
      "js ''not a url''" "js ''xyz''" "emptyResult []"]
  have m: "matchedDomain (analyzeUrl samplePlatform TyposquatDetector
             (js ''https://paypal-security-update.xyz'')) \<noteq> None"
    by (simp add: update_analysis[OF update_sample])
  have n: "\<not> isSuspicious (analyzeUrl samplePlatform TyposquatDetector (js ''not a url''))"
    by (simp add: analyzeUrl_unfold noturl_extract emptyResult_def)
  have e: "matchedDomain (emptyResult []) = None"
    by (simp add: emptyResult_def)
  show ?thesis
    using suspicious clean m n e by blast
qed

text \<open>
  C4. For \<open>https://g00gle.com\<close> (which the URL constructor gives the hostname
  \<open>g00gle.com\<close>) the verdict is suspicious, the matched domain is \<open>google\<close>, the one reason
  is the homograph reason, and the score is 90: the normalized label is \<open>google\<close> itself.
\<close>

theorem g00gle_is_homograph:
  "URL_hostname P (js ''https://g00gle.com'') = Some (js ''g00gle.com'') \<Longrightarrow>
   analyzeUrl P TyposquatDetector (js ''https://g00gle.com'') =
     \<lparr>url = js ''https://g00gle.com'', isSuspicious = True, riskScore = 90,
      reasons = [homographReason (js ''google'')], matchedDomain = Some (js ''google'')\<rparr>
   \<and> startsWith (homographReason (js ''google'')) (js ''Homograph attack'')
   \<and> normalizeString P (js ''g00gle'') = js ''google''
   \<and> levenshteinDistance (js ''google'') (js ''google'') = 0"
proof (intro conjI)
  assume "URL_hostname P (js ''https://g00gle.com'') = Some (js ''g00gle.com'')"
  then show "analyzeUrl P TyposquatDetector (js ''https://g00gle.com'') =
     \<lparr>url = js ''https://g00gle.com'', isSuspicious = True, riskScore = 90,
      reasons = [homographReason (js ''google'')], matchedDomain = Some (js ''google'')\<rparr>"
    by (rule g00gle_analysis)
  show "startsWith (homographReason (js ''google'')) (js ''Homograph attack'')"
    by (simp add: homographReason_def startsWith_def js_def)
  show "normalizeString P (js ''g00gle'') = js ''google''"
    by (rule g00gle_normalized)
  show "levenshteinDistance (js ''google'') (js ''google'') = 0"
    by (simp add: levenshteinDistance_prefix prefixDistance_same)
qed

theorem g00gle_is_homograph_witness:
  "URL_hostname samplePlatform (js ''https://g00gle.com'') = Some (js ''g00gle.com'')
   \<and> analyzeUrl samplePlatform TyposquatDetector (js ''https://g00gle.com'') =
       \<lparr>url = js ''https://g00gle.com'', isSuspicious = True, riskScore = 90,
        reasons = [homographReason (js ''google'')], matchedDomain = Some (js ''google'')\<rparr>"
  using g00gle_sample g00gle_is_homograph[OF g00gle_sample] by blast

text \<open>
  C6. For \<open>https://paypal-security-update.xyz\<close> (hostname \<open>paypal-security-update.xyz\<close>)
  the verdict is suspicious with score exactly 80: the brand loop stops at \<open>paypal\<close>, which
  the base label contains without being equal to it, and adds 60; \<open>xyz\<close> is a suspicious
  top-level domain and a domain is matched, so the bonus adds 20.
\<close>

theorem paypal_update_scores_80:
  "URL_hostname P (js ''https://paypal-security-update.xyz'')
     = Some (js ''paypal-security-update.xyz'') \<Longrightarrow>
   analyzeUrl P TyposquatDetector (js ''https://paypal-security-update.xyz'') =
     \<lparr>url = js ''https://paypal-security-update.xyz'', isSuspicious = True, riskScore = 80,
      reasons = [containsReason (js ''paypal''), tldReason (js ''xyz'')],
      matchedDomain = Some (js ''paypal'')\<rparr>
   \<and> brandLoop (js ''paypal-security-update'') (js ''paypal-security-update'')
         (knownDomains TyposquatDetector) (emptyResult (js ''https://paypal-security-update.xyz''))
       = \<lparr>url = js ''https://paypal-security-update.xyz'', isSuspicious = True, riskScore = 60,
          reasons = [containsReason (js ''paypal'')], matchedDomain = Some (js ''paypal'')\<rparr>
   \<and> includesStr (js ''paypal-security-update'') (js ''paypal'')
   \<and> js ''paypal-security-update'' \<noteq> js ''paypal''
   \<and> getTLD (js ''paypal-security-update.xyz'') = js ''xyz''
   \<and> js ''xyz'' \<in> set (suspiciousTLDs TyposquatDetector)"
proof (intro conjI)
  assume "URL_hostname P (js ''https://paypal-security-update.xyz'')
            = Some (js ''paypal-security-update.xyz'')"
  then show "analyzeUrl P TyposquatDetector (js ''https://paypal-security-update.xyz'') =
     \<lparr>url = js ''https://paypal-security-update.xyz'', isSuspicious = True, riskScore = 80,
      reasons = [containsReason (js ''paypal''), tldReason (js ''xyz'')],
      matchedDomain = Some (js ''paypal'')\<rparr>"
    by (rule update_analysis)
  show "includesStr (js ''paypal-security-update'') (js ''paypal'')"
    by (simp add: js_def startsWith_def)
  show "js ''paypal-security-update'' \<noteq> js ''paypal''"
    by (simp add: js_def)
qed (rule update_brands update_tld xyz_suspicious)+

theorem paypal_update_scores_80_witness:
  "URL_hostname samplePlatform (js ''https://paypal-security-update.xyz'')
     = Some (js ''paypal-security-update.xyz'')
   \<and> analyzeUrl samplePlatform TyposquatDetector (js ''https://paypal-security-update.xyz'') =
     \<lparr>url = js ''https://paypal-security-update.xyz'', isSuspicious = True, riskScore = 80,
      reasons = [containsReason (js ''paypal''), tldReason (js ''xyz'')],
      matchedDomain = Some (js ''paypal'')\<rparr>"
  using update_sample paypal_update_scores_80[OF update_sample] by blast

section \<open>normalizeString\<close>

lemma replaceAll_unit: "replaceAll [a] [b] s = replaceUnit a b s"
  by (induction s) (auto simp: replaceUnit_def startsWith_def)

lemma replaceAll_pair: "replaceAll [a, b] [r] s = replacePair a b r s"
  by (induction a b r s rule: replacePair.induct) (auto simp: startsWith_def)

lemma normalizeString_spec: "normalizeString P s = specNormalize P s"
  by (simp add: normalizeString_def specNormalize_def substitutions_def js_def
      replaceAll_unit replaceAll_pair)

lemma replaceUnit_absent: "a \<notin> set s \<Longrightarrow> replaceUnit a b s = s"
  by (induction s) (auto simp: replaceUnit_def)

lemma replacePair_absent: "\<not> includesStr s [a, b] \<Longrightarrow> replacePair a b r s = s"
  by (induction a b r s rule: replacePair.induct) (auto simp: startsWith_def)

lemma normalizeString_untouched:
  assumes "\<forall>c\<in>set (toLowerCase P s). c \<notin> set (js ''01345789@$'')"
    and "\<not> includesStr (toLowerCase P s) (js ''rn'')"
    and "\<not> includesStr (toLowerCase P s) (js ''vv'')"
  shows "normalizeString P s = toLowerCase P s"
proof -
  have u: "48 \<notin> set (toLowerCase P s)" "49 \<notin> set (toLowerCase P s)"
    "51 \<notin> set (toLowerCase P s)" "52 \<notin> set (toLowerCase P s)"
    "53 \<notin> set (toLowerCase P s)" "55 \<notin> set (toLowerCase P s)"
    "56 \<notin> set (toLowerCase P s)" "57 \<notin> set (toLowerCase P s)"
    "64 \<notin> set (toLowerCase P s)" "36 \<notin> set (toLowerCase P s)"
    using assms(1) by (auto simp: js_def)
  have p: "\<not> includesStr (toLowerCase P s) [114, 110]" "\<not> includesStr (toLowerCase P s) [118, 118]"
    using assms(2,3) by (simp_all add: js_def)
  show ?thesis
    by (simp add: normalizeString_def replaceUnit_absent u replacePair_absent p)
qed

lemma homoglyphs_untouched:
  "\<forall>(k, gs)\<in>set (homoglyphs TyposquatDetector). \<forall>g\<in>set gs.
     \<not> list_all isAscii g \<and> unicodeLower P g = g \<longrightarrow> normalizeString P g = g"
  by (simp add: TyposquatDetector_def normalizeString_def eval_strings)

text \<open>
  C8. \<open>normalizeString\<close> is the lower-casing followed by the twelve substitutions of the
  specification, each applied over the whole string, in their order. A string whose
  lower-case form has none of the ten single units and neither \<open>rn\<close> nor \<open>vv\<close> is only
  lower-cased. Every entry of the \<open>homoglyphs\<close> table with a unit outside ASCII, which the
  case mapping leaves alone, is returned as it is; \<open>normalizeString\<close> takes no table.
\<close>

theorem normalizeString_is_substitution_sequence:
  "normalizeString P s = specNormalize P s
   \<and> ((\<forall>c\<in>set (toLowerCase P s). c \<notin> set (js ''01345789@$''))
        \<and> \<not> includesStr (toLowerCase P s) (js ''rn'')
        \<and> \<not> includesStr (toLowerCase P s) (js ''vv'')
        \<longrightarrow> normalizeString P s = toLowerCase P s)
   \<and> (\<forall>(k, gs)\<in>set (homoglyphs TyposquatDetector). \<forall>g\<in>set gs.
         \<not> list_all isAscii g \<and> unicodeLower P g = g \<longrightarrow> normalizeString P g = g)"
  using normalizeString_spec[of P s] normalizeString_untouched[of P s] homoglyphs_untouched[of P]
  by blast

theorem normalizeString_is_substitution_sequence_witness:
  "toLowerCase samplePlatform (js ''PayPal'') = js ''paypal''
   \<and> normalizeString samplePlatform (js ''PayPal'') = js ''paypal''
   \<and> (js ''a'', [js ''@'', js ''4'', [0x430], [0x105], [0x3B1]]) \<in> set (homoglyphs TyposquatDetector)
   \<and> unicodeLower samplePlatform [0x430] = [0x430]
   \<and> normalizeString samplePlatform [0x430] = [0x430]"
proof -
  note T = normalizeString_is_substitution_sequence[of samplePlatform "js ''PayPal''"]
  have low: "toLowerCase samplePlatform (js ''PayPal'') = js ''paypal''"
    by (simp add: eval_strings)
  have none: "\<forall>c\<in>set (js ''paypal''). c \<notin> set (js ''01345789@$'')"
    "\<not> includesStr (js ''paypal'') (js ''rn'')" "\<not> includesStr (js ''paypal'') (js ''vv'')"
    by (simp_all add: js_def startsWith_def)
  have 1: "normalizeString samplePlatform (js ''PayPal'') = js ''paypal''"
    using T none unfolding low by blast
  have entry: "(js ''a'', [js ''@'', js ''4'', [0x430], [0x105], [0x3B1]])
                 \<in> set (homoglyphs TyposquatDetector)"
    by (simp add: TyposquatDetector_def)
  have g: "[0x430] \<in> set [js ''@'', js ''4'', [0x430], [0x105], [0x3B1]]"
    by simp
  have na: "\<not> list_all isAscii [0x430]" by (simp add: isAscii_def)
  have fixed: "unicodeLower samplePlatform [0x430] = [0x430]"
    by (simp add: samplePlatform_def)
  have 2: "normalizeString samplePlatform [0x430] = [0x430]"
    using T entry g na fixed by blast
  show ?thesis using low 1 entry fixed 2 by blast
qed

section \<open>A known domain under .com\<close>

lemma brands_far: "pairwiseFar (knownDomains TyposquatDetector)"
  by (simp add: TyposquatDetector_def js_def far_def rowDistance_def)

lemma brands_outside:
  "list_all (\<lambda>B. list_all (outside B) (knownDomains TyposquatDetector)) (knownDomains TyposquatDetector)"
  by (simp add: TyposquatDetector_def js_def outside_def startsWith_def)

lemma levenshteinDistance_sym: "levenshteinDistance a b = levenshteinDistance b a"
  unfolding levenshteinDistance_prefix by (rule prefixDistance_sym)

lemma far_levenshtein:
  assumes "far a b"
  shows "2 < levenshteinDistance a b"
proof (cases "length a + 2 < length b \<or> length b + 2 < length a")
  case True
  then have "2 < \<bar>int (length a) - int (length b)\<bar>" by auto
  then show ?thesis
    using prefixDistance_ge_diff[of "length a" "length b" a b]
    by (simp add: levenshteinDistance_prefix)
next
  case False
  then show ?thesis
    using assms by (simp add: far_def levenshteinDistance_rowDistance)
qed

lemma pairwiseFar_levenshtein:
  "pairwiseFar ks \<Longrightarrow> a \<in> set ks \<Longrightarrow> b \<in> set ks \<Longrightarrow> a \<noteq> b \<Longrightarrow> 2 < levenshteinDistance a b"
proof (induction ks)
  case Nil
  then show ?case by simp
next
  case (Cons k ks)
  have head: "2 < levenshteinDistance k x" if "x \<in> set ks" for x
    using Cons.prems(1) that by (auto simp: list_all_iff intro: far_levenshtein)
  show ?case
  proof (cases "a = k")
    case True
    then have "b \<in> set ks" using Cons.prems by auto
    then show ?thesis using head True by simp
  next
    case False
    then have a: "a \<in> set ks" using Cons.prems by auto
    show ?thesis
    proof (cases "b = k")
      case True
      then show ?thesis using head[OF a] by (simp add: levenshteinDistance_sym[of a])
    next
      case False
      then have "b \<in> set ks" using Cons.prems by auto
      then show ?thesis using Cons.IH a Cons.prems by simp
    qed
  qed
qed

lemma brandLoop_quiet:
  "\<forall>K\<in>set ks. K = base \<or> (2 < levenshteinDistance norm K \<and> \<not> includesStr base K) \<Longrightarrow>
   brandLoop base norm ks r = r"
  by (induction ks) (auto simp: Let_def)

lemma brands_plain:
  "list_all (\<lambda>B. toLowerCase P (B @ js ''.com'') = B @ js ''.com''
                \<and> split 46 (B @ js ''.com'') = [B, js ''com'']
                \<and> normalizeString P B = B)
     (knownDomains TyposquatDetector)"
  by (simp add: TyposquatDetector_def normalizeString_def eval_strings)

lemma https_extract:
  "URL_hostname P (js ''https://'' @ B @ js ''.com'') = Some h \<Longrightarrow>
   extractDomain P (js ''https://'' @ B @ js ''.com'') = Some (toLowerCase P h)"
  by (simp add: extractDomain_def trim_def isTrimmed_def startsWith_def js_def)

lemma brand_com_analysis:
  assumes B: "B \<in> set (knownDomains TyposquatDetector)"
    and host: "URL_hostname P (js ''https://'' @ B @ js ''.com'') = Some (B @ js ''.com'')"
  shows "analyzeUrl P TyposquatDetector (js ''https://'' @ B @ js ''.com'')
         = emptyResult (js ''https://'' @ B @ js ''.com'')"
    and "getBaseDomain (B @ js ''.com'') = B"
    and "normalizeString P B = B"
    and "checkSubdomainTrick TyposquatDetector (B @ js ''.com'') = NoTrick"
    and "brandLoop B B (knownDomains TyposquatDetector) r = r"
    and "\<forall>K\<in>set (knownDomains TyposquatDetector).
           K \<noteq> B \<longrightarrow> 2 < levenshteinDistance B K \<and> \<not> includesStr B K"
proof -
  let ?h = "B @ js ''.com''"
  have plain: "toLowerCase P ?h = ?h" "split 46 ?h = [B, js ''com'']" "normalizeString P B = B"
    using brands_plain[of P] B by (auto simp: list_all_iff)
  show base: "getBaseDomain ?h = B"
    by (simp add: getBaseDomain_def plain(2))
  show "normalizeString P B = B" by (rule plain(3))
  show trick: "checkSubdomainTrick TyposquatDetector ?h = NoTrick"
    by (simp add: checkSubdomainTrick_def plain(2))
  show others: "\<forall>K\<in>set (knownDomains TyposquatDetector).
           K \<noteq> B \<longrightarrow> 2 < levenshteinDistance B K \<and> \<not> includesStr B K"
  proof (intro ballI impI conjI)
    fix K assume K: "K \<in> set (knownDomains TyposquatDetector)" "K \<noteq> B"
    show "2 < levenshteinDistance B K"
      using pairwiseFar_levenshtein[OF brands_far B K(1)] K(2) by simp
    show "\<not> includesStr B K"
      using brands_outside B K by (auto simp: list_all_iff outside_def)
  qed
  then show loop: "brandLoop B B (knownDomains TyposquatDetector) r = r" for r
    by (intro brandLoop_quiet) auto
  have ext: "extractDomain P (js ''https://'' @ ?h) = Some ?h"
    using https_extract[OF host] by (simp add: plain(1))
  have ne: "?h \<noteq> []" by (simp add: js_def)
  show "analyzeUrl P TyposquatDetector (js ''https://'' @ B @ js ''.com'')
         = emptyResult (js ''https://'' @ B @ js ''.com'')"
    using ext ne
    by (simp add: analyzeUrl_unfold base plain(3) trick loop applySubdomainCheck_def
        applyTldBonus_def truthy_def emptyResult_def)
qed

text \<open>
  C3. For every known domain \<open>B\<close>, the address \<open>https://B.com\<close> (to which the URL
  constructor gives the hostname \<open>B.com\<close>) is not suspicious: the base label is \<open>B\<close>, which
  the brand loop skips; every other known domain is at distance more than 2 from it and does
  not occur in it; normalizing leaves \<open>B\<close> as it is, so the homograph test is not reached;
  and two labels are too few for the subdomain check.
\<close>

theorem known_domain_com_not_suspicious:
  "B \<in> set (knownDomains TyposquatDetector) \<Longrightarrow>
   URL_hostname P (js ''https://'' @ B @ js ''.com'') = Some (B @ js ''.com'') \<Longrightarrow>
   \<not> isSuspicious (analyzeUrl P TyposquatDetector (js ''https://'' @ B @ js ''.com''))
   \<and> getBaseDomain (B @ js ''.com'') = B
   \<and> normalizeString P B = B
   \<and> checkSubdomainTrick TyposquatDetector (B @ js ''.com'') = NoTrick
   \<and> (\<forall>K\<in>set (knownDomains TyposquatDetector).
         K \<noteq> B \<longrightarrow> 2 < levenshteinDistance B K \<and> \<not> includesStr B K)"
  using brand_com_analysis[of B P]
  by (simp add: emptyResult_def)

theorem known_domain_com_not_suspicious_witness:
  "js ''google'' \<in> set (knownDomains TyposquatDetector)
   \<and> URL_hostname samplePlatform (js ''https://'' @ js ''google'' @ js ''.com'')
       = Some (js ''google'' @ js ''.com'')
   \<and> \<not> isSuspicious (analyzeUrl samplePlatform TyposquatDetector
                         (js ''https://'' @ js ''google'' @ js ''.com''))"
proof -
  have B: "js ''google'' \<in> set (knownDomains TyposquatDetector)"
    by (simp add: TyposquatDetector_def)
  have host: "URL_hostname samplePlatform (js ''https://'' @ js ''google'' @ js ''.com'')
                = Some (js ''google'' @ js ''.com'')"
    by (simp add: eval_sample eval_strings)
  show ?thesis
    using B host known_domain_com_not_suspicious[OF B host] by blast
qed

end
